theory Spec2Isabelle
  imports Complex_Main "HOL-Library.Word"
begin

unbundle bit_operations_syntax

section \<open>Data model\<close>

text \<open>
  The arrays of \<^verbatim>\<open>leaf_analysis.py\<close> are numpy arrays of \<^verbatim>\<open>uint8\<close>: an image has
  shape (rows, columns, 3), a mask has shape (rows, columns). A 2-D array is a list of
  rows; a pixel is the triple of its three channels, in the channel order of the array
  (B, G, R after decoding; R, G, B after the first conversion; H, S, V after the
  second).
\<close>

type_synonym uint8 = "8 word"
type_synonym pixel = "uint8 \<times> uint8 \<times> uint8"
type_synonym image = "pixel list list"
type_synonym mask = "uint8 list list"

text \<open>
  Exceptions are values. \<open>ValueError\<close> is raised by the source itself, \<open>OSError\<close> by
  \<^verbatim>\<open>open\<close>, \<open>CvError\<close> (OpenCV's \<^verbatim>\<open>cv2.error\<close>) by the decoder, \<open>ZeroDivisionError\<close> by
  Python's \<^verbatim>\<open>/\<close>; \<open>Exception\<close> is the plain exception that \<^verbatim>\<open>load_and_process_image\<close>
  raises from its handler. Each carries its message.
\<close>

datatype py_error =
    ValueError string
  | OSError string
  | CvError string
  | ZeroDivisionError string
  | Exception string

fun str :: "py_error \<Rightarrow> string" where
  "str (ValueError m) = m"
| "str (OSError m) = m"
| "str (CvError m) = m"
| "str (ZeroDivisionError m) = m"
| "str (Exception m) = m"

text \<open>The dictionary returned by \<^verbatim>\<open>calculate_severity\<close>, with its two keys.\<close>

record severity =
  percentage :: rat
  level :: string

section \<open>Python floats\<close>

text \<open>
  A Python float is an IEEE 754 binary64 number. A finite float is modelled by the
  rational number it denotes, and every float operation of the source
  (\<^verbatim>\<open>int / int\<close>, \<^verbatim>\<open>float * int\<close>) is the exact operation followed by \<open>fl\<close>, rounding to
  the nearest number with a 53-bit significand, ties to the even significand.
  Comparisons of floats with integers are exact. The exponent range of binary64 is
  not modelled: the quotient of two pixel counts below \<open>2 ^ 63\<close> and its product with
  100 stay far inside it.
\<close>

definition round_half_even :: "rat \<Rightarrow> int" where
  "round_half_even x =
     (let n = \<lfloor>x\<rfloor>; d = x - of_int n
      in if d < 1 / 2 then n else if 1 / 2 < d then n + 1
         else if even n then n else n + 1)"

function bit_length :: "int \<Rightarrow> int" where
  "bit_length n = (if n \<le> 0 then 0 else 1 + bit_length (n div 2))"
  by pat_completeness auto
termination
  by (relation "measure nat") auto

declare bit_length.simps [simp del]

text \<open>\<open>ilog2 x\<close> is the binary exponent of a positive \<open>x\<close>: \<open>2 powi ilog2 x \<le> x < 2 powi (ilog2 x + 1)\<close>.\<close>

definition ilog2 :: "rat \<Rightarrow> int" where
  "ilog2 x =
     (let (p, q) = quotient_of x;
          k = bit_length p - bit_length q
      in if 2 powi k \<le> x then k else k - 1)"

definition fl :: "rat \<Rightarrow> rat" where
  "fl x =
     (if x = 0 then 0
      else (let e = ilog2 \<bar>x\<bar> - 52
            in sgn x * of_int (round_half_even (\<bar>x\<bar> / 2 powi e)) * 2 powi e))"

text \<open>
  \<^verbatim>\<open>a / b\<close> on Python ints: \<^verbatim>\<open>ZeroDivisionError\<close> for a zero divisor, otherwise the
  correctly rounded quotient. \<^verbatim>\<open>x * 100\<close> on a float: the rounded product.
\<close>

definition py_truediv :: "nat \<Rightarrow> nat \<Rightarrow> py_error + rat" where
  "py_truediv a b =
     (if b = 0 then Inl (ZeroDivisionError ''division by zero'')
      else Inr (fl (of_nat a / of_nat b)))"

definition py_float_mul :: "rat \<Rightarrow> rat \<Rightarrow> rat" where
  "py_float_mul x y = fl (x * y)"

section \<open>The numpy and OpenCV operations used by the source\<close>

text \<open>\<^verbatim>\<open>np.count_nonzero(a)\<close>: the number of entries of the array that are not 0.\<close>

definition count_nonzero :: "mask \<Rightarrow> nat" where
  "count_nonzero a = sum_list (map (\<lambda>row. length (filter (\<lambda>v. v \<noteq> 0) row)) a)"

text \<open>\<^verbatim>\<open>hsv[:, :, 1]\<close>: the second channel of every pixel.\<close>

definition channel1 :: "image \<Rightarrow> mask" where
  "channel1 a = map (map (\<lambda>(c0, c1, c2). c1)) a"

text \<open>\<^verbatim>\<open>a > t\<close> on a \<^verbatim>\<open>uint8\<close> array and a Python int: an array of booleans.\<close>

definition np_greater :: "mask \<Rightarrow> int \<Rightarrow> bool list list" where
  "np_greater a t = map (map (\<lambda>v. t < uint v)) a"

text \<open>\<^verbatim>\<open>b.astype(np.uint8)\<close> on a boolean array: \<^verbatim>\<open>True\<close> becomes 1, \<^verbatim>\<open>False\<close> becomes 0.\<close>

definition astype_uint8 :: "bool list list \<Rightarrow> mask" where
  "astype_uint8 b = map (map (\<lambda>t. if t then 1 else 0)) b"

text \<open>
  \<^verbatim>\<open>cv2.inRange(src, lowerb, upperb)\<close>: 255 where every channel of the pixel lies between
  its lower and its upper bound, both included, and 0 elsewhere.
\<close>

definition inRange :: "image \<Rightarrow> int \<times> int \<times> int \<Rightarrow> int \<times> int \<times> int \<Rightarrow> mask" where
  "inRange src lowerb upperb =
     map (map (\<lambda>(c0, c1, c2).
       case lowerb of (l0, l1, l2) \<Rightarrow> case upperb of (u0, u1, u2) \<Rightarrow>
         if l0 \<le> uint c0 \<and> uint c0 \<le> u0 \<and> l1 \<le> uint c1 \<and> uint c1 \<le> u1 \<and>
            l2 \<le> uint c2 \<and> uint c2 \<le> u2
         then 255 else 0)) src"

text \<open>
  \<^verbatim>\<open>a & b\<close> on two \<^verbatim>\<open>uint8\<close> arrays: the bitwise AND of the entries at the same
  position. The source applies it to two arrays of the shape of the image.
\<close>

definition bitwise_and :: "mask \<Rightarrow> mask \<Rightarrow> mask" where
  "bitwise_and a b = map2 (map2 (\<lambda>x y. x AND y)) a b"

text \<open>\<^verbatim>\<open>cv2.cvtColor(image, cv2.COLOR_BGR2RGB)\<close>: the first and the third channel change places.\<close>

definition cvtColor_BGR2RGB :: "image \<Rightarrow> image" where
  "cvtColor_BGR2RGB a = map (map (\<lambda>(b, g, r). (r, g, b))) a"

text \<open>
  \<^verbatim>\<open>cv2.cvtColor(image, cv2.COLOR_RGB2HSV)\<close> converts every pixel by itself. OpenCV's
  conversion of one 8-bit pixel is the parameter \<open>rgb2hsv\<close>.
\<close>

definition cvtColor_RGB2HSV :: "(pixel \<Rightarrow> pixel) \<Rightarrow> image \<Rightarrow> image" where
  "cvtColor_RGB2HSV rgb2hsv a = map (map rgb2hsv) a"

section \<open>\<^verbatim>\<open>load_and_process_image\<close>\<close>

definition lower_hue :: "int \<times> int \<times> int" where
  "lower_hue = (15, 50, 50)"

definition upper_hue :: "int \<times> int \<times> int" where
  "upper_hue = (30, 255, 255)"

text \<open>
  The body of the \<^verbatim>\<open>try\<close> block. The world outside the program is three parameters:
  \<open>read_file\<close> (\<^verbatim>\<open>open(image_path, 'rb')\<close> and \<^verbatim>\<open>f.read()\<close>: the bytes of the file or an
  error), \<open>imdecode\<close> (\<^verbatim>\<open>cv2.imdecode\<close>: an error, no image, or the decoded image in
  B, G, R order) and \<open>rgb2hsv\<close>.
\<close>

definition try_block ::
  "(string \<Rightarrow> py_error + uint8 list) \<Rightarrow> (uint8 list \<Rightarrow> py_error + image option) \<Rightarrow>
   (pixel \<Rightarrow> pixel) \<Rightarrow> string \<Rightarrow> py_error + image \<times> mask \<times> mask" where
  "try_block read_file imdecode rgb2hsv image_path =
     (case read_file image_path of
        Inl e \<Rightarrow> Inl e
      | Inr image_data \<Rightarrow>
          (case imdecode image_data of
             Inl e \<Rightarrow> Inl e
           | Inr None \<Rightarrow> Inl (ValueError (''Unable to load image from: '' @ image_path))
           | Inr (Some decoded) \<Rightarrow>
               (let image = cvtColor_BGR2RGB decoded;
                    hsv = cvtColor_RGB2HSV rgb2hsv image;
                    saturation = channel1 hsv;
                    leaf_mask = astype_uint8 (np_greater saturation 25);
                    infected_mask = inRange hsv lower_hue upper_hue;
                    infected_mask = bitwise_and infected_mask leaf_mask
                in Inr (image, leaf_mask, infected_mask))))"

text \<open>The handler: every exception of the block is replaced by one \<^verbatim>\<open>Exception\<close>.\<close>

definition load_and_process_image ::
  "(string \<Rightarrow> py_error + uint8 list) \<Rightarrow> (uint8 list \<Rightarrow> py_error + image option) \<Rightarrow>
   (pixel \<Rightarrow> pixel) \<Rightarrow> string \<Rightarrow> py_error + image \<times> mask \<times> mask" where
  "load_and_process_image read_file imdecode rgb2hsv image_path =
     (case try_block read_file imdecode rgb2hsv image_path of
        Inl e \<Rightarrow> Inl (Exception (''Error processing image: '' @ str e))
      | Inr result \<Rightarrow> Inr result)"

section \<open>\<^verbatim>\<open>calculate_severity\<close> and \<^verbatim>\<open>analyze_leaf\<close>\<close>

definition calculate_severity :: "mask \<Rightarrow> mask \<Rightarrow> py_error + severity" where
  "calculate_severity leaf_mask infected_mask =
     (let total_leaf_pixels = count_nonzero leaf_mask
      in if total_leaf_pixels = 0
         then Inl (ValueError ''The leaf mask is empty, unable to calculate severity.'')
         else (let infected_pixels = count_nonzero infected_mask
               in case py_truediv infected_pixels total_leaf_pixels of
                    Inl e \<Rightarrow> Inl e
                  | Inr ratio \<Rightarrow>
                      (let severity_percentage = py_float_mul ratio 100;
                           severity_level =
                             (if severity_percentage < 10 then ''Low''
                              else if severity_percentage < 30 then ''Moderate''
                              else ''High'')
                       in Inr \<lparr>percentage = severity_percentage, level = severity_level\<rparr>)))"

definition analyze_leaf ::
  "(string \<Rightarrow> py_error + uint8 list) \<Rightarrow> (uint8 list \<Rightarrow> py_error + image option) \<Rightarrow>
   (pixel \<Rightarrow> pixel) \<Rightarrow> string \<Rightarrow> py_error + severity" where
  "analyze_leaf read_file imdecode rgb2hsv filepath =
     (case load_and_process_image read_file imdecode rgb2hsv filepath of
        Inl e \<Rightarrow> Inl e
      | Inr (img, leaf_mask, infected_mask) \<Rightarrow> calculate_severity leaf_mask infected_mask)"

section \<open>Notions of the specification\<close>

text \<open>A pixel of a mask is true when its entry is not 0.\<close>

definition truth :: "mask \<Rightarrow> bool list list" where
  "truth m = map (map (\<lambda>v. v \<noteq> 0)) m"

text \<open>
  \<open>mask_subset a b\<close>: the two masks have the same shape and every pixel that is true
  in \<open>a\<close> is true in \<open>b\<close>.
\<close>

definition mask_subset :: "mask \<Rightarrow> mask \<Rightarrow> bool" where
  "mask_subset a b = list_all2 (list_all2 (\<lambda>x y. x \<noteq> 0 \<longrightarrow> y \<noteq> 0)) a b"

text \<open>
  The intersection of two masks as the specification words it: the boolean AND of the
  truth values at the same position.
\<close>

definition boolean_and :: "bool list list \<Rightarrow> bool list list \<Rightarrow> bool list list" where
  "boolean_and a b = map2 (map2 (\<lambda>x y. x \<and> y)) a b"

text \<open>\<open>values_in m S\<close>: every entry of the mask is one of the values of \<open>S\<close>.\<close>

definition values_in :: "mask \<Rightarrow> uint8 list \<Rightarrow> bool" where
  "values_in m S = list_all (list_all (\<lambda>v. v \<in> set S)) m"

text \<open>
  The positions (row, column) of the entries of a mask that are not 0, in row-major
  order.
\<close>

definition nonzero_positions :: "mask \<Rightarrow> (nat \<times> nat) list" where
  "nonzero_positions m =
     concat (map (\<lambda>(r, row). map (\<lambda>(c, v). (r, c)) (filter (\<lambda>(c, v). v \<noteq> 0) (enumerate 0 row)))
       (enumerate 0 m))"

section \<open>An example world\<close>

text \<open>
  A small world in which the functions are evaluated: the file \<^verbatim>\<open>leaf.png\<close> decodes to
  an image of two rows and two columns (green and yellow-brown above, white and pale
  pink below, in B, G, R order), the file \<^verbatim>\<open>notes.txt\<close> is not an image and decodes to
  nothing, and no other file exists. \<open>example_rgb2hsv\<close> holds the values of OpenCV's
  conversion at the four colours of the image (every other colour is treated as white
  is, and never occurs).
\<close>

definition example_decoded :: image where
  "example_decoded = [[(0, 255, 0), (50, 150, 200)], [(255, 255, 255), (230, 230, 255)]]"

definition example_read_file :: "string \<Rightarrow> py_error + uint8 list" where
  "example_read_file path =
     (if path = ''leaf.png'' then Inr [137, 80, 78, 71]
      else if path = ''notes.txt'' then Inr [104, 105]
      else Inl (OSError ''No such file or directory''))"

definition example_imdecode :: "uint8 list \<Rightarrow> py_error + image option" where
  "example_imdecode buf = (if buf = [137, 80, 78, 71] then Inr (Some example_decoded) else Inr None)"

definition example_rgb2hsv :: "pixel \<Rightarrow> pixel" where
  "example_rgb2hsv p =
     (if p = (0, 255, 0) then (60, 255, 255)
      else if p = (200, 150, 50) then (20, 191, 200)
      else if p = (255, 230, 230) then (0, 25, 255)
      else (0, 0, 255))"

section \<open>Rounding\<close>

lemma bit_length_nonneg: "0 \<le> bit_length n"
proof (induction n rule: bit_length.induct)
  case (1 n)
  then show ?case by (subst bit_length.simps) simp
qed

lemma bit_length_pos: "0 < n \<Longrightarrow> 0 < bit_length n"
  using bit_length_nonneg [of "n div 2"] by (subst bit_length.simps) simp

lemma bit_length_bounds:
  "0 < n \<Longrightarrow> 2 ^ nat (bit_length n - 1) \<le> n \<and> n < 2 ^ nat (bit_length n)"
proof (induction n rule: bit_length.induct)
  case (1 n)
  show ?case
  proof (cases "n = 1")
    case True
    have "bit_length 1 = 1"
      by (subst bit_length.simps, subst bit_length.simps) simp
    with True show ?thesis by simp
  next
    case False
    with 1(2) have h: "0 < n div 2" by simp
    with 1(1,2) have ih: "2 ^ nat (bit_length (n div 2) - 1) \<le> n div 2"
        "n div 2 < 2 ^ nat (bit_length (n div 2))"
      by simp_all
    have bl: "bit_length n = 1 + bit_length (n div 2)"
      using 1(2) by (subst bit_length.simps) simp
    have pos: "0 < bit_length (n div 2)" using h by (rule bit_length_pos)
    have e1: "nat (bit_length n - 1) = Suc (nat (bit_length (n div 2) - 1))"
      using pos bl by simp
    have e2: "nat (bit_length n) = Suc (nat (bit_length (n div 2)))"
      using pos bl by simp
    show ?thesis
      using ih unfolding e1 e2 by auto
  qed
qed

lemma bit_length_powi:
  assumes n: "0 < n"
  shows "(2::rat) powi (bit_length n - 1) \<le> of_int n" and "of_int n < (2::rat) powi (bit_length n)"
proof -
  have b: "0 < bit_length n" using n by (rule bit_length_pos)
  have "(2::int) ^ nat (bit_length n - 1) \<le> n" using bit_length_bounds [OF n] by simp
  then have "(of_int ((2::int) ^ nat (bit_length n - 1)) :: rat) \<le> of_int n"
    by (simp only: of_int_le_iff)
  then show "(2::rat) powi (bit_length n - 1) \<le> of_int n"
    using b by (simp add: power_int_def)
  have "n < (2::int) ^ nat (bit_length n)" using bit_length_bounds [OF n] by simp
  then have "(of_int n :: rat) < of_int ((2::int) ^ nat (bit_length n))"
    by (simp only: of_int_less_iff)
  then show "of_int n < (2::rat) powi (bit_length n)"
    using b by (simp add: power_int_def)
qed

lemma ilog2_bounds:
  assumes "0 < x"
  shows "2 powi (ilog2 x) \<le> x" and "x < 2 powi (ilog2 x + 1)"
proof -
  obtain p q where pq: "quotient_of x = (p, q)" by (cases "quotient_of x")
  have q: "0 < q" using pq by (rule quotient_of_denom_pos)
  have x: "x = of_int p / of_int q" using pq by (rule quotient_of_div)
  have p: "0 < p" using assms q unfolding x by (simp add: zero_less_divide_iff)
  define k where "k = bit_length p - bit_length q"
  have il: "ilog2 x = (if 2 powi k \<le> x then k else k - 1)"
    by (simp add: ilog2_def pq k_def Let_def)
  have qr: "(0::rat) < of_int q" using q by simp
  have lo: "2 powi (k - 1) \<le> x"
  proof -
    have "(2::rat) powi (k - 1) = 2 powi (bit_length p - 1) / 2 powi (bit_length q)"
      by (simp add: k_def power_int_diff)
    also have "\<dots> \<le> of_int p / 2 powi (bit_length q)"
      using bit_length_powi(1) [OF p] by (simp add: divide_right_mono)
    also have "\<dots> \<le> of_int p / of_int q"
      using bit_length_powi(2) [OF q] qr p by (simp add: frac_le)
    finally show ?thesis by (simp add: x)
  qed
  have hi: "x < 2 powi (k + 1)"
  proof -
    have "x = of_int p / of_int q" by (rule x)
    also have "\<dots> < 2 powi (bit_length p) / of_int q"
      using bit_length_powi(2) [OF p] qr by (simp add: divide_strict_right_mono)
    also have "\<dots> \<le> 2 powi (bit_length p) / 2 powi (bit_length q - 1)"
      using bit_length_powi(1) [OF q] by (simp add: frac_le)
    also have "\<dots> = 2 powi (k + 1)"
      by (simp add: k_def power_int_diff power_int_add)
    finally show ?thesis .
  qed
  show "2 powi (ilog2 x) \<le> x" using lo by (simp add: il)
  show "x < 2 powi (ilog2 x + 1)" using hi by (auto simp add: il not_le)
qed

lemma round_half_even_cases:
  "round_half_even y = \<lfloor>y\<rfloor> \<and> y - of_int \<lfloor>y\<rfloor> \<le> 1 / 2
   \<or> round_half_even y = \<lfloor>y\<rfloor> + 1 \<and> 1 / 2 \<le> y - of_int \<lfloor>y\<rfloor>"
  by (auto simp add: round_half_even_def Let_def)

lemma round_half_even_error: "\<bar>of_int (round_half_even y) - y\<bar> \<le> 1 / 2"
proof -
  have "of_int \<lfloor>y\<rfloor> \<le> y" and "y < of_int \<lfloor>y\<rfloor> + 1" by linarith+
  with round_half_even_cases [of y] show ?thesis by auto
qed

lemma round_half_even_le:
  assumes "y \<le> of_int n"
  shows "round_half_even y \<le> n"
proof (cases "y = of_int n")
  case True
  then show ?thesis by (simp add: round_half_even_def)
next
  case False
  with assms have "y < of_int n" by simp
  then have "\<lfloor>y\<rfloor> < n" by (simp add: floor_less_iff)
  with round_half_even_cases [of y] show ?thesis by auto
qed

lemma round_half_even_nonneg: "0 \<le> y \<Longrightarrow> 0 \<le> round_half_even y"
  using round_half_even_cases [of y] by auto

lemma fl_pos:
  "0 < x \<Longrightarrow> fl x = of_int (round_half_even (x / 2 powi (ilog2 x - 52))) * 2 powi (ilog2 x - 52)"
  by (simp add: fl_def Let_def)

lemma fl_zero: "fl 0 = 0"
  by (simp add: fl_def)

lemma fl_nonneg: "0 \<le> x \<Longrightarrow> 0 \<le> fl x"
proof (cases "x = 0")
  case True
  then show ?thesis by (simp add: fl_def)
next
  case False
  assume "0 \<le> x"
  with False have x: "0 < x" by simp
  have "0 \<le> x / 2 powi (ilog2 x - 52)" using x by simp
  then have "0 \<le> round_half_even (x / 2 powi (ilog2 x - 52))"
    by (rule round_half_even_nonneg)
  then show ?thesis by (simp add: fl_pos [OF x])
qed

text \<open>The relative error of one rounding is at most \<open>2 powi - 53\<close>.\<close>

lemma fl_error:
  assumes x: "0 < x"
  shows "\<bar>fl x - x\<bar> \<le> x / 2 ^ 53"
proof -
  define e where "e = ilog2 x - 52"
  define y where "y = x / 2 powi e"
  have pe: "(0::rat) < 2 powi e" by simp
  have xy: "x = y * 2 powi e" by (simp add: y_def)
  have flx: "fl x = of_int (round_half_even y) * 2 powi e"
    by (simp add: fl_pos [OF x] e_def y_def)
  have "fl x - x = of_int (round_half_even y) * 2 powi e - y * 2 powi e"
    by (simp only: flx xy [symmetric])
  then have "fl x - x = (of_int (round_half_even y) - y) * 2 powi e"
    by (simp add: algebra_simps)
  then have "\<bar>fl x - x\<bar> = \<bar>of_int (round_half_even y) - y\<bar> * 2 powi e"
    by (simp add: abs_mult)
  also have "\<dots> \<le> 1 / 2 * 2 powi e"
    using round_half_even_error [of y] pe by (simp add: mult_right_mono)
  also have "\<dots> = 2 powi (ilog2 x) / 2 ^ 53"
    by (simp add: e_def power_int_diff)
  also have "\<dots> \<le> x / 2 ^ 53"
    using ilog2_bounds(1) [OF x] by (simp add: divide_right_mono)
  finally show ?thesis .
qed

text \<open>Rounding never crosses an integer below \<open>2 ^ 53\<close>: such an integer is a float.\<close>

lemma fl_le_int:
  assumes x: "0 < x" and le: "x \<le> of_int n" and n: "n < 2 ^ 53"
  shows "fl x \<le> of_int n"
proof -
  define e where "e = ilog2 x - 52"
  have "(of_int n :: rat) < of_int (2 ^ 53)" using n by (simp only: of_int_less_iff)
  then have "x < 2 powi 53" using le by simp
  with ilog2_bounds(1) [OF x] have "(2::rat) powi (ilog2 x) < 2 powi 53" by simp
  then have "ilog2 x < 53" by (rule power_int_le_imp_less_exp [rotated]) simp_all
  then have e0: "e \<le> 0" by (simp add: e_def)
  define N where "N = n * 2 ^ nat (- e)"
  have inv: "(2::rat) powi e = 1 / 2 ^ nat (- e)"
    using e0 by (simp add: power_int_def field_simps)
  have "x / 2 powi e \<le> of_int N"
    using le by (simp add: inv N_def mult_right_mono)
  then have "round_half_even (x / 2 powi e) \<le> N" by (rule round_half_even_le)
  then have "(of_int (round_half_even (x / 2 powi e)) :: rat) \<le> of_int N"
    by (simp only: of_int_le_iff)
  then have "of_int (round_half_even (x / 2 powi e)) * 2 powi e \<le> of_int N * (2::rat) powi e"
    by (simp add: mult_right_mono)
  also have "\<dots> = of_int n" by (simp add: N_def inv)
  finally show ?thesis by (simp add: fl_pos [OF x] e_def)
qed

section \<open>Facts about \<^verbatim>\<open>calculate_severity\<close>\<close>

text \<open>
  The quotient of two positive counts below \<open>2 ^ 63\<close>, the largest size of an array,
  lies between \<open>2 powi - 63\<close> and \<open>2 ^ 63\<close>: inside the range of binary64, whose
  exponent therefore plays no part.
\<close>

lemma quotient_in_range:
  assumes "0 < i" and "i < 2 ^ 63" and "0 < t" and "t < 2 ^ 63"
  shows "1 / 2 ^ 63 < (of_nat i / of_nat t :: rat)" and "(of_nat i / of_nat t :: rat) < 2 ^ 63"
proof -
  have i: "(1::rat) \<le> of_nat i" "(of_nat i :: rat) < 2 ^ 63"
    using assms(1,2) by simp_all
  have t: "(1::rat) \<le> of_nat t" "(of_nat t :: rat) < 2 ^ 63"
    using assms(3,4) by simp_all
  have "1 / 2 ^ 63 < 1 / (of_nat t :: rat)"
    using t by (simp add: field_simps)
  also have "\<dots> \<le> of_nat i / of_nat t"
    using i t by (simp add: divide_right_mono)
  finally show "1 / 2 ^ 63 < (of_nat i / of_nat t :: rat)" .
  have "(of_nat i / of_nat t :: rat) \<le> of_nat i / 1"
    using i t by (intro divide_left_mono) simp_all
  with i show "(of_nat i / of_nat t :: rat) < 2 ^ 63" by simp
qed

lemma calculate_severity_nonempty:
  assumes "count_nonzero leaf_mask \<noteq> 0"
  shows "calculate_severity leaf_mask infected_mask =
     Inr \<lparr>percentage = fl (fl (of_nat (count_nonzero infected_mask) / of_nat (count_nonzero leaf_mask)) * 100),
          level = (if fl (fl (of_nat (count_nonzero infected_mask) / of_nat (count_nonzero leaf_mask)) * 100) < 10
                   then ''Low''
                   else if fl (fl (of_nat (count_nonzero infected_mask) / of_nat (count_nonzero leaf_mask)) * 100) < 30
                   then ''Moderate'' else ''High'')\<rparr>"
  using assms by (simp add: calculate_severity_def py_truediv_def py_float_mul_def Let_def)

lemma calculate_severity_empty:
  assumes "count_nonzero leaf_mask = 0"
  shows "calculate_severity leaf_mask infected_mask =
     Inl (ValueError ''The leaf mask is empty, unable to calculate severity.'')"
  using assms by (simp add: calculate_severity_def)

lemma percentage_nonneg: "0 \<le> fl (fl (of_nat i / of_nat t) * 100)"
  by (intro fl_nonneg mult_nonneg_nonneg) simp_all

lemma percentage_le_100:
  assumes "i \<le> t" and "0 < t"
  shows "fl (fl (of_nat i / of_nat t) * 100) \<le> 100"
proof (cases "i = 0")
  case True
  then show ?thesis by (simp add: fl_zero)
next
  case False
  define q :: rat where "q = of_nat i / of_nat t"
  have q0: "0 < q" using False assms by (simp add: q_def)
  have q1: "q \<le> of_int 1" using assms by (simp add: q_def)
  have a1: "fl q \<le> 1" using fl_le_int [OF q0 q1] by simp
  have a0: "0 \<le> fl q" using q0 by (simp add: fl_nonneg)
  show ?thesis
  proof (cases "fl q = 0")
    case True
    then show ?thesis by (simp add: q_def [symmetric] fl_zero)
  next
    case False
    with a0 have "0 < fl q * 100" by simp
    moreover have "fl q * 100 \<le> of_int 100" using a1 by simp
    ultimately have "fl (fl q * 100) \<le> of_int 100" by (rule fl_le_int) simp
    then show ?thesis by (simp add: q_def)
  qed
qed

lemma percentage_error:
  assumes "0 \<le> q"
  shows "\<bar>fl (fl q * 100) - 100 * q\<bar> \<le> 100 * q * (1 / 2 ^ 52 + 1 / 2 ^ 106)"
proof (cases "q = 0")
  case True
  then show ?thesis by (simp add: fl_zero)
next
  case False
  with assms have q: "0 < q" by simp
  define a where "a = fl q"
  have e1: "\<bar>a - q\<bar> \<le> q / 2 ^ 53" unfolding a_def using q by (rule fl_error)
  have "q / 2 ^ 53 < q" using q by (simp add: field_simps)
  with e1 have a: "0 < a" by linarith
  then have a100: "0 < a * 100" by simp
  have e2: "\<bar>fl (a * 100) - a * 100\<bar> \<le> a * 100 / 2 ^ 53" using a100 by (rule fl_error)
  have au: "a \<le> q + q / 2 ^ 53" using e1 by linarith
  have "a * 100 / 2 ^ 53 \<le> (q + q / 2 ^ 53) * 100 / 2 ^ 53"
    using au by (simp add: divide_right_mono)
  with e2 have e3: "\<bar>fl (a * 100) - a * 100\<bar> \<le> (q + q / 2 ^ 53) * 100 / 2 ^ 53" by linarith
  have "\<bar>fl (a * 100) - 100 * q\<bar> \<le> \<bar>fl (a * 100) - a * 100\<bar> + 100 * \<bar>a - q\<bar>"
    by (auto simp add: abs_if)
  also have "\<dots> \<le> (q + q / 2 ^ 53) * 100 / 2 ^ 53 + 100 * (q / 2 ^ 53)"
    using e3 e1 by (intro add_mono mult_left_mono) simp_all
  also have "\<dots> = 100 * q * (1 / 2 ^ 52 + 1 / 2 ^ 106)"
    by (simp add: field_simps)
  finally show ?thesis by (simp add: a_def)
qed

lemma row_count_le:
  "list_all2 (\<lambda>x y. x \<noteq> (0::uint8) \<longrightarrow> y \<noteq> (0::uint8)) xs ys \<Longrightarrow>
   length (filter (\<lambda>v. v \<noteq> 0) xs) \<le> length (filter (\<lambda>v. v \<noteq> 0) ys)"
  by (induction rule: list_all2_induct) auto

lemma count_nonzero_mono:
  "mask_subset a b \<Longrightarrow> count_nonzero a \<le> count_nonzero b"
  unfolding mask_subset_def count_nonzero_def
proof (induction rule: list_all2_induct)
  case Nil
  show ?case by simp
next
  case (Cons x xs y ys)
  from Cons(1) have "length (filter (\<lambda>v. v \<noteq> 0) x) \<le> length (filter (\<lambda>v. v \<noteq> 0) y)"
    by (rule row_count_le)
  with Cons(3) show ?case by simp
qed

lemma row_positions_length:
  "length (filter (\<lambda>(c, v). v \<noteq> (0::uint8)) (enumerate n row)) = length (filter (\<lambda>v. v \<noteq> 0) row)"
proof -
  have "length (filter (\<lambda>v. v \<noteq> 0) row) = length (filter (\<lambda>v. v \<noteq> 0) (map snd (enumerate n row)))"
    by simp
  also have "\<dots> = length (filter ((\<lambda>v. v \<noteq> 0) \<circ> snd) (enumerate n row))"
    by (simp only: filter_map length_map)
  also have "(\<lambda>v. v \<noteq> (0::uint8)) \<circ> snd = (\<lambda>(c::nat, v). v \<noteq> 0)"
    by (auto simp: fun_eq_iff)
  finally show ?thesis by simp
qed

lemma count_nonzero_positions: "count_nonzero m = length (nonzero_positions m)"
proof -
  let ?g = "\<lambda>row::uint8 list. length (filter (\<lambda>v. v \<noteq> 0) row)"
  have "length (nonzero_positions m) = sum_list (map (\<lambda>p. ?g (snd p)) (enumerate 0 m))"
    by (simp add: nonzero_positions_def length_concat comp_def case_prod_unfold
        row_positions_length [unfolded case_prod_unfold])
  also have "map (\<lambda>p. ?g (snd p)) (enumerate 0 m) = map ?g (map snd (enumerate 0 m))"
    by (simp only: map_map comp_def)
  also have "\<dots> = map ?g m"
    by (simp only: map_snd_enumerate)
  finally show ?thesis by (simp add: count_nonzero_def)
qed


section \<open>The severity level\<close>

text \<open>
  C1. For every leaf mask with at least one true pixel and every infected mask,
  \<^verbatim>\<open>calculate_severity\<close> returns a result whose level follows from its percentage by
  strict comparisons with 10 and 30: a percentage in [0, 10) gives "Low", one in
  [10, 30) gives "Moderate", one of 30 or more gives "High"; exactly 10 gives
  "Moderate" and exactly 30 gives "High".
\<close>

theorem calculate_severity_level_intervals:
  assumes "count_nonzero leaf_mask \<noteq> 0"
  shows "\<exists>r. calculate_severity leaf_mask infected_mask = Inr r \<and>
     0 \<le> percentage r \<and>
     (percentage r < 10 \<longrightarrow> level r = ''Low'') \<and>
     (10 \<le> percentage r \<and> percentage r < 30 \<longrightarrow> level r = ''Moderate'') \<and>
     (30 \<le> percentage r \<longrightarrow> level r = ''High'') \<and>
     (percentage r = 10 \<longrightarrow> level r = ''Moderate'') \<and>
     (percentage r = 30 \<longrightarrow> level r = ''High'')"
  by (simp add: calculate_severity_nonempty [OF assms] percentage_nonneg)

theorem calculate_severity_level_intervals_witness:
  "count_nonzero [[1, 1, 1, 1, 1], [1, 1, 1, 1, 1]] \<noteq> 0 \<and>
   (\<exists>r. calculate_severity [[1, 1, 1, 1, 1], [1, 1, 1, 1, 1]] [[1, 0, 0, 0, 0], [0, 0, 0, 0, 0]] = Inr r \<and>
        percentage r = 10 \<and> level r = ''Moderate'') \<and>
   (\<exists>r. calculate_severity [[1, 1, 1, 1, 1], [1, 1, 1, 1, 1]] [[1, 0, 1, 0, 0], [0, 0, 0, 1, 0]] = Inr r \<and>
        percentage r = 30 \<and> level r = ''High'') \<and>
   (\<exists>r. calculate_severity [[1, 1, 1, 1, 1], [1, 1, 1, 1, 1]] [[0, 0, 0, 0, 0], [0, 0, 0, 0, 0]] = Inr r \<and>
        percentage r = 0 \<and> level r = ''Low'')"
proof -
  let ?leaf = "[[1, 1, 1, 1, 1], [1, 1, 1, 1, 1]] :: mask"
  have h: "count_nonzero ?leaf \<noteq> 0" by (simp add: count_nonzero_def)
  have p1: "percentage (projr (calculate_severity ?leaf [[1, 0, 0, 0, 0], [0, 0, 0, 0, 0]])) = 10"
    by code_simp
  have p2: "percentage (projr (calculate_severity ?leaf [[1, 0, 1, 0, 0], [0, 0, 0, 1, 0]])) = 30"
    by code_simp
  have p3: "percentage (projr (calculate_severity ?leaf [[0, 0, 0, 0, 0], [0, 0, 0, 0, 0]])) = 0"
    by code_simp
  from calculate_severity_level_intervals [OF h, of "[[1, 0, 0, 0, 0], [0, 0, 0, 0, 0]]"] p1
  have w1: "\<exists>r. calculate_severity ?leaf [[1, 0, 0, 0, 0], [0, 0, 0, 0, 0]] = Inr r \<and>
        percentage r = 10 \<and> level r = ''Moderate''"
    by auto
  from calculate_severity_level_intervals [OF h, of "[[1, 0, 1, 0, 0], [0, 0, 0, 1, 0]]"] p2
  have w2: "\<exists>r. calculate_severity ?leaf [[1, 0, 1, 0, 0], [0, 0, 0, 1, 0]] = Inr r \<and>
        percentage r = 30 \<and> level r = ''High''"
    by auto
  from calculate_severity_level_intervals [OF h, of "[[0, 0, 0, 0, 0], [0, 0, 0, 0, 0]]"] p3
  have w3: "\<exists>r. calculate_severity ?leaf [[0, 0, 0, 0, 0], [0, 0, 0, 0, 0]] = Inr r \<and>
        percentage r = 0 \<and> level r = ''Low''"
    by auto
  from h w1 w2 w3 show ?thesis by blast
qed

section \<open>The severity percentage\<close>

text \<open>
  C2, as stated: for every leaf mask with at least one true pixel, the percentage
  returned by \<^verbatim>\<open>calculate_severity\<close> is 100 times the number of true pixels of the
  infected mask divided by the number of true pixels of the leaf mask. The source
  computes \<^verbatim>\<open>(infected_pixels / total_leaf_pixels) * 100\<close> on floats: the quotient is
  rounded, and its product with 100 is rounded again. With 7 infected pixels on a leaf
  of 25 pixels the result is 28.000000000000004 (the float
  7881299347898369 / 2 ^ 48), not 28.
\<close>

theorem calculate_severity_percentage_counterexample:
  "count_nonzero [[1, 1, 1, 1, 1], [1, 1, 1, 1, 1], [1, 1, 1, 1, 1], [1, 1, 1, 1, 1], [1, 1, 1, 1, 1]] = 25 \<and>
   count_nonzero [[1, 1, 1, 1, 1], [1, 1, 0, 0, 0], [0, 0, 0, 0, 0], [0, 0, 0, 0, 0], [0, 0, 0, 0, 0]] = 7 \<and>
   calculate_severity
     [[1, 1, 1, 1, 1], [1, 1, 1, 1, 1], [1, 1, 1, 1, 1], [1, 1, 1, 1, 1], [1, 1, 1, 1, 1]]
     [[1, 1, 1, 1, 1], [1, 1, 0, 0, 0], [0, 0, 0, 0, 0], [0, 0, 0, 0, 0], [0, 0, 0, 0, 0]]
     = Inr \<lparr>percentage = 7881299347898369 / 281474976710656, level = ''Moderate''\<rparr> \<and>
   (7881299347898369 / 281474976710656 :: rat) \<noteq> 100 * 7 / 25"
proof -
  have "calculate_severity
     [[1, 1, 1, 1, 1], [1, 1, 1, 1, 1], [1, 1, 1, 1, 1], [1, 1, 1, 1, 1], [1, 1, 1, 1, 1]]
     [[1, 1, 1, 1, 1], [1, 1, 0, 0, 0], [0, 0, 0, 0, 0], [0, 0, 0, 0, 0], [0, 0, 0, 0, 0]]
     = Inr \<lparr>percentage = 7881299347898369 / 281474976710656, level = ''Moderate''\<rparr>"
    by code_simp
  then show ?thesis by (simp add: count_nonzero_def)
qed

text \<open>
  C2, amended: for every leaf mask with at least one true pixel,
  \<^verbatim>\<open>calculate_severity\<close> returns a result whose percentage is the float product with
  100 of the float quotient of the two counts of true pixels; it differs from 100
  times the exact quotient by a relative error of at most \<open>2 powi - 52 + 2 powi - 106\<close>.
\<close>

theorem calculate_severity_percentage_rounded:
  assumes "count_nonzero leaf_mask \<noteq> 0"
  shows "\<exists>r. calculate_severity leaf_mask infected_mask = Inr r \<and>
     percentage r =
       fl (fl (of_nat (count_nonzero infected_mask) / of_nat (count_nonzero leaf_mask)) * 100) \<and>
     \<bar>percentage r - 100 * of_nat (count_nonzero infected_mask) / of_nat (count_nonzero leaf_mask)\<bar>
       \<le> 100 * of_nat (count_nonzero infected_mask) / of_nat (count_nonzero leaf_mask)
           * (1 / 2 ^ 52 + 1 / 2 ^ 106)"
proof -
  define q :: rat where "q = of_nat (count_nonzero infected_mask) / of_nat (count_nonzero leaf_mask)"
  have "0 \<le> q" by (simp add: q_def)
  then have "\<bar>fl (fl q * 100) - 100 * q\<bar> \<le> 100 * q * (1 / 2 ^ 52 + 1 / 2 ^ 106)"
    by (rule percentage_error)
  then show ?thesis
    by (simp add: calculate_severity_nonempty [OF assms] q_def)
qed

theorem calculate_severity_percentage_rounded_witness:
  "count_nonzero [[1, 255], [1, 1]] \<noteq> 0 \<and>
   (\<exists>r. calculate_severity [[1, 255], [1, 1]] [[0, 1], [0, 0]] = Inr r \<and>
        percentage r = fl (fl (1 / 4) * 100) \<and>
        \<bar>percentage r - 100 * 1 / 4\<bar> \<le> 100 * 1 / 4 * (1 / 2 ^ 52 + 1 / 2 ^ 106))"
proof -
  have h: "count_nonzero [[1, 255], [1, 1]] \<noteq> 0" by (simp add: count_nonzero_def)
  have c: "count_nonzero [[1, 255], [1, 1]] = 4" "count_nonzero [[0, 1], [0, 0]] = 1"
    by (simp_all add: count_nonzero_def)
  from calculate_severity_percentage_rounded [OF h, of "[[0, 1], [0, 0]]"] h
  show ?thesis unfolding c by simp
qed

section \<open>The empty leaf\<close>

text \<open>
  C3. \<^verbatim>\<open>calculate_severity\<close> fails with the error of the empty leaf mask exactly when
  the leaf mask has no true pixel; it fails in no other way, in particular never with
  a division by zero, and on an empty leaf it returns no result at all.
\<close>

theorem calculate_severity_empty_leaf:
  "(calculate_severity leaf_mask infected_mask =
      Inl (ValueError ''The leaf mask is empty, unable to calculate severity.''))
     = (count_nonzero leaf_mask = 0) \<and>
   (\<exists>e. calculate_severity leaf_mask infected_mask = Inl e) = (count_nonzero leaf_mask = 0) \<and>
   (\<forall>m. calculate_severity leaf_mask infected_mask \<noteq> Inl (ZeroDivisionError m)) \<and>
   (count_nonzero leaf_mask = 0 \<longrightarrow> (\<forall>r. calculate_severity leaf_mask infected_mask \<noteq> Inr r))"
proof (cases "count_nonzero leaf_mask = 0")
  case True
  then show ?thesis by (simp add: calculate_severity_empty)
next
  case False
  then show ?thesis by (simp add: calculate_severity_nonempty)
qed

theorem calculate_severity_empty_leaf_witness:
  "count_nonzero [[0, 0, 0], [0, 0, 0]] = 0 \<and>
   calculate_severity [[0, 0, 0], [0, 0, 0]] [[0, 255, 0], [0, 0, 0]] =
     Inl (ValueError ''The leaf mask is empty, unable to calculate severity.'') \<and>
   calculate_severity [[0, 0, 0], [0, 0, 0]] [[0, 255, 0], [0, 0, 0]] \<noteq>
     Inr \<lparr>percentage = 0, level = ''Low''\<rparr> \<and>
   count_nonzero [[0, 1, 0], [0, 0, 0]] \<noteq> 0 \<and>
   calculate_severity [[0, 1, 0], [0, 0, 0]] [[0, 0, 0], [0, 0, 0]] \<noteq>
     Inl (ValueError ''The leaf mask is empty, unable to calculate severity.'')"
proof -
  have z: "count_nonzero [[0, 0, 0], [0, 0, 0]] = 0" by (simp add: count_nonzero_def)
  have n: "count_nonzero [[0, 1, 0], [0, 0, 0]] \<noteq> 0" by (simp add: count_nonzero_def)
  from calculate_severity_empty_leaf [of "[[0, 0, 0], [0, 0, 0]]" "[[0, 255, 0], [0, 0, 0]]"]
       calculate_severity_empty_leaf [of "[[0, 1, 0], [0, 0, 0]]" "[[0, 0, 0], [0, 0, 0]]"]
       z n
  show ?thesis by simp
qed

section \<open>The range of the result\<close>

text \<open>
  C5. When the leaf mask has a true pixel and the infected mask is a subset of the leaf
  mask, \<^verbatim>\<open>calculate_severity\<close> returns a result whose percentage lies in [0, 100] and
  whose level is one of "Low", "Moderate" and "High".
\<close>

theorem calculate_severity_range:
  assumes "count_nonzero leaf_mask \<noteq> 0" and "mask_subset infected_mask leaf_mask"
  shows "\<exists>r. calculate_severity leaf_mask infected_mask = Inr r \<and>
     0 \<le> percentage r \<and> percentage r \<le> 100 \<and>
     level r \<in> {''Low'', ''Moderate'', ''High''}"
proof -
  have "count_nonzero infected_mask \<le> count_nonzero leaf_mask"
    using assms(2) by (rule count_nonzero_mono)
  moreover have "0 < count_nonzero leaf_mask" using assms(1) by simp
  ultimately have "fl (fl (of_nat (count_nonzero infected_mask) / of_nat (count_nonzero leaf_mask)) * 100) \<le> 100"
    by (rule percentage_le_100)
  then show ?thesis
    by (simp add: calculate_severity_nonempty [OF assms(1)] percentage_nonneg)
qed

theorem calculate_severity_range_witness:
  "count_nonzero [[1, 1, 0], [1, 1, 0]] \<noteq> 0 \<and>
   mask_subset [[0, 1, 0], [0, 0, 0]] [[1, 1, 0], [1, 1, 0]] \<and>
   (\<exists>r. calculate_severity [[1, 1, 0], [1, 1, 0]] [[0, 1, 0], [0, 0, 0]] = Inr r \<and>
        0 \<le> percentage r \<and> percentage r \<le> 100 \<and>
        level r \<in> {''Low'', ''Moderate'', ''High''})"
proof -
  have h: "count_nonzero [[1, 1, 0], [1, 1, 0]] \<noteq> 0" by (simp add: count_nonzero_def)
  have s: "mask_subset [[0, 1, 0], [0, 0, 0]] [[1, 1, 0], [1, 1, 0]]"
    by (simp add: mask_subset_def)
  from calculate_severity_range [OF h s] h s show ?thesis by blast
qed

section \<open>Independence of the stored values\<close>

text \<open>
  C10. \<^verbatim>\<open>calculate_severity\<close> depends on the positions of the entries that are not 0
  only: two pairs of masks with the same such positions give the same result or the
  same failure, whatever the values stored there (1 or 255).
\<close>

theorem calculate_severity_nonzero_positions:
  assumes "nonzero_positions leaf_mask = nonzero_positions leaf_mask'"
      and "nonzero_positions infected_mask = nonzero_positions infected_mask'"
  shows "calculate_severity leaf_mask infected_mask = calculate_severity leaf_mask' infected_mask'"
proof -
  have "count_nonzero leaf_mask = count_nonzero leaf_mask'"
       "count_nonzero infected_mask = count_nonzero infected_mask'"
    using assms by (simp_all add: count_nonzero_positions)
  then show ?thesis unfolding calculate_severity_def by (simp only:)
qed

theorem calculate_severity_nonzero_positions_witness:
  "nonzero_positions [[0, 1, 1], [1, 1, 0]] = nonzero_positions [[0, 255, 255], [255, 255, 0]] \<and>
   nonzero_positions [[0, 1, 0], [0, 0, 0]] = nonzero_positions [[0, 255, 0], [0, 0, 0]] \<and>
   calculate_severity [[0, 1, 1], [1, 1, 0]] [[0, 1, 0], [0, 0, 0]] =
     calculate_severity [[0, 255, 255], [255, 255, 0]] [[0, 255, 0], [0, 0, 0]] \<and>
   calculate_severity [[0, 255, 255], [255, 255, 0]] [[0, 255, 0], [0, 0, 0]] =
     Inr \<lparr>percentage = 25, level = ''Moderate''\<rparr>"
proof -
  have l: "nonzero_positions [[0, 1, 1], [1, 1, 0]] = nonzero_positions [[0, 255, 255], [255, 255, 0]]"
    by code_simp
  have i: "nonzero_positions [[0, 1, 0], [0, 0, 0]] = nonzero_positions [[0, 255, 0], [0, 0, 0]]"
    by code_simp
  have v: "calculate_severity [[0, 1, 1], [1, 1, 0]] [[0, 1, 0], [0, 0, 0]] =
     Inr \<lparr>percentage = 25, level = ''Moderate''\<rparr>"
    by code_simp
  from calculate_severity_nonzero_positions [OF l i] l i v show ?thesis by simp
qed

section \<open>Facts about \<^verbatim>\<open>load_and_process_image\<close>\<close>

lemma load_and_process_image_decoded:
  assumes "read_file image_path = Inr image_data"
      and "imdecode image_data = Inr (Some decoded)"
  shows "load_and_process_image read_file imdecode rgb2hsv image_path =
     Inr (cvtColor_BGR2RGB decoded,
          astype_uint8 (np_greater (channel1 (cvtColor_RGB2HSV rgb2hsv (cvtColor_BGR2RGB decoded))) 25),
          bitwise_and
            (inRange (cvtColor_RGB2HSV rgb2hsv (cvtColor_BGR2RGB decoded)) lower_hue upper_hue)
            (astype_uint8 (np_greater (channel1 (cvtColor_RGB2HSV rgb2hsv (cvtColor_BGR2RGB decoded))) 25)))"
  using assms by (simp add: load_and_process_image_def try_block_def Let_def)

lemma leaf_mask_shape:
  "length (astype_uint8 (np_greater (channel1 (cvtColor_RGB2HSV rgb2hsv img)) 25)) = length img"
  "r < length img \<Longrightarrow>
   length (astype_uint8 (np_greater (channel1 (cvtColor_RGB2HSV rgb2hsv img)) 25) ! r) = length (img ! r)"
  by (simp_all add: astype_uint8_def np_greater_def channel1_def cvtColor_RGB2HSV_def)

lemma leaf_mask_nth:
  assumes "r < length img" and "c < length (img ! r)"
  shows "(astype_uint8 (np_greater (channel1 (cvtColor_RGB2HSV rgb2hsv img)) 25) ! r ! c \<noteq> 0)
     = (case rgb2hsv (img ! r ! c) of (h, s, v) \<Rightarrow> 25 < uint s)"
  using assms
  by (simp add: astype_uint8_def np_greater_def channel1_def cvtColor_RGB2HSV_def split: prod.splits)

lemma inRange_shape:
  "length (inRange (cvtColor_RGB2HSV rgb2hsv img) lowerb upperb) = length img"
  "r < length img \<Longrightarrow>
   length (inRange (cvtColor_RGB2HSV rgb2hsv img) lowerb upperb ! r) = length (img ! r)"
  by (simp_all add: inRange_def cvtColor_RGB2HSV_def)

lemma inRange_nth:
  assumes "r < length img" and "c < length (img ! r)"
  shows "(inRange (cvtColor_RGB2HSV rgb2hsv img) lower_hue upper_hue ! r ! c \<noteq> 0)
     = (case rgb2hsv (img ! r ! c) of (h, s, v) \<Rightarrow>
          15 \<le> uint h \<and> uint h \<le> 30 \<and> 50 \<le> uint s \<and> uint s \<le> 255 \<and>
          50 \<le> uint v \<and> uint v \<le> 255)"
  using assms
  by (simp add: inRange_def cvtColor_RGB2HSV_def lower_hue_def upper_hue_def split: prod.splits)

lemma and_nonzero: "x AND y \<noteq> (0::uint8) \<Longrightarrow> y \<noteq> 0"
  by auto

lemma row_subset:
  "list_all2 (\<lambda>x y. x \<noteq> (0::uint8) \<longrightarrow> y \<noteq> (0::uint8)) (map2 (\<lambda>x y. x AND y) (map f row) (map g row)) (map g row)"
  by (induction row) (auto dest: and_nonzero)

lemma mask_subset_bitwise_and:
  "mask_subset (bitwise_and (map (map f) a) (map (map g) a)) (map (map g) a)"
  unfolding mask_subset_def bitwise_and_def
  by (induction a) (simp_all add: row_subset)

lemma mask_subset_nth:
  assumes "mask_subset a b"
  shows "length a = length b"
    and "r < length a \<Longrightarrow> length (a ! r) = length (b ! r)"
    and "r < length a \<Longrightarrow> c < length (a ! r) \<Longrightarrow> a ! r ! c \<noteq> 0 \<Longrightarrow> b ! r ! c \<noteq> 0"
proof -
  show l: "length a = length b" using assms by (simp add: mask_subset_def list_all2_lengthD)
  have row: "list_all2 (\<lambda>x y. x \<noteq> 0 \<longrightarrow> y \<noteq> 0) (a ! r) (b ! r)" if "r < length a"
    using assms that by (simp add: mask_subset_def list_all2_nthD)
  show "length (a ! r) = length (b ! r)" if "r < length a"
    using row [OF that] by (rule list_all2_lengthD)
  show "b ! r ! c \<noteq> 0" if "r < length a" "c < length (a ! r)" "a ! r ! c \<noteq> 0"
    using row [OF that(1)] that(2,3) by (auto dest: list_all2_nthD)
qed

lemma and_truth:
  assumes "x \<in> set [0, 255 :: uint8]" and "y \<in> set [0, 1 :: uint8]"
  shows "(x AND y \<noteq> 0) = (x \<noteq> 0 \<and> y \<noteq> 0)"
  using assms by auto

lemma row_truth_and:
  "list_all (\<lambda>v. v \<in> set [0, 255 :: uint8]) xs \<Longrightarrow> list_all (\<lambda>v. v \<in> set [0, 1 :: uint8]) ys \<Longrightarrow>
   map (\<lambda>v. v \<noteq> 0) (map2 (\<lambda>x y. x AND y) xs ys) =
   map2 (\<lambda>x y. x \<and> y) (map (\<lambda>v. v \<noteq> 0) xs) (map (\<lambda>v. v \<noteq> 0) ys)"
proof (induction xs arbitrary: ys)
  case Nil
  show ?case by simp
next
  case (Cons x xs)
  show ?case
  proof (cases ys)
    case Nil
    then show ?thesis by simp
  next
    case (Cons y ys')
    with Cons.prems have xy: "x \<in> set [0, 255]" "y \<in> set [0, 1]"
      and rest: "list_all (\<lambda>v. v \<in> set [0, 255 :: uint8]) xs" "list_all (\<lambda>v. v \<in> set [0, 1 :: uint8]) ys'"
      by simp_all
    from Cons.IH [OF rest] and_truth [OF xy] Cons show ?thesis by simp
  qed
qed

lemma truth_bitwise_and:
  "values_in a [0, 255] \<Longrightarrow> values_in b [0, 1] \<Longrightarrow>
   truth (bitwise_and a b) = boolean_and (truth a) (truth b)"
  unfolding values_in_def truth_def bitwise_and_def boolean_and_def
proof (induction a arbitrary: b)
  case Nil
  show ?case by simp
next
  case (Cons x xs)
  show ?case
  proof (cases b)
    case Nil
    then show ?thesis by simp
  next
    case (Cons y ys)
    with Cons.prems have rows: "list_all (\<lambda>v. v \<in> set [0, 255 :: uint8]) x" "list_all (\<lambda>v. v \<in> set [0, 1 :: uint8]) y"
      and rest: "list_all (list_all (\<lambda>v. v \<in> set [0, 255 :: uint8])) xs"
        "list_all (list_all (\<lambda>v. v \<in> set [0, 1 :: uint8])) ys"
      by simp_all
    from Cons.IH [OF rest] row_truth_and [OF rows] Cons show ?thesis by simp
  qed
qed

lemma inRange_values: "values_in (inRange src lowerb upperb) [0, 255]"
  by (auto simp add: values_in_def inRange_def list_all_iff split: prod.splits)

lemma astype_uint8_values: "values_in (astype_uint8 b) [0, 1]"
  by (auto simp add: values_in_def astype_uint8_def list_all_iff)

lemma example_load:
  "load_and_process_image example_read_file example_imdecode example_rgb2hsv ''leaf.png'' =
     Inr ([[(0, 255, 0), (200, 150, 50)], [(255, 255, 255), (255, 230, 230)]],
          [[1, 1], [0, 0]], [[0, 1], [0, 0]])"
  by (simp add: load_and_process_image_def try_block_def example_read_file_def example_imdecode_def
      example_decoded_def example_rgb2hsv_def cvtColor_BGR2RGB_def cvtColor_RGB2HSV_def channel1_def
      np_greater_def astype_uint8_def inRange_def lower_hue_def upper_hue_def bitwise_and_def Let_def)

lemma example_inRange:
  "inRange (cvtColor_RGB2HSV example_rgb2hsv
      [[(0, 255, 0), (200, 150, 50)], [(255, 255, 255), (255, 230, 230)]]) lower_hue upper_hue =
   [[0, 255], [0, 0]]"
  by (simp add: inRange_def cvtColor_RGB2HSV_def example_rgb2hsv_def lower_hue_def upper_hue_def)

text \<open>The whole analysis in the example world.\<close>

lemma example_analyze_leaf:
  "analyze_leaf example_read_file example_imdecode example_rgb2hsv ''leaf.png'' =
     Inr \<lparr>percentage = 50, level = ''High''\<rparr>"
proof -
  have "calculate_severity [[1, 1], [0, 0]] [[0, 1], [0, 0]] = Inr \<lparr>percentage = 50, level = ''High''\<rparr>"
    by code_simp
  then show ?thesis by (simp add: analyze_leaf_def example_load)
qed

lemma example_analyze_missing:
  "analyze_leaf example_read_file example_imdecode example_rgb2hsv ''none.png'' =
     Inl (Exception ''Error processing image: No such file or directory'')"
  by (simp add: analyze_leaf_def load_and_process_image_def try_block_def example_read_file_def)

section \<open>The infected mask lies inside the leaf mask\<close>

text \<open>
  C4. For every image that is read and decoded, \<^verbatim>\<open>load_and_process_image\<close> returns
  masks of one shape such that every pixel that is true in the infected mask is true
  in the leaf mask: the infected mask is intersected with the leaf mask before it is
  returned.
\<close>

theorem infected_mask_subset_leaf_mask:
  assumes "read_file image_path = Inr image_data"
      and "imdecode image_data = Inr (Some decoded)"
  shows "\<exists>img leaf_mask infected_mask.
     load_and_process_image read_file imdecode rgb2hsv image_path = Inr (img, leaf_mask, infected_mask) \<and>
     mask_subset infected_mask leaf_mask \<and>
     length infected_mask = length leaf_mask \<and>
     (\<forall>r < length infected_mask. length (infected_mask ! r) = length (leaf_mask ! r) \<and>
        (\<forall>c < length (infected_mask ! r). infected_mask ! r ! c \<noteq> 0 \<longrightarrow> leaf_mask ! r ! c \<noteq> 0))"
proof -
  define hsv where "hsv = cvtColor_RGB2HSV rgb2hsv (cvtColor_BGR2RGB decoded)"
  define leaf_mask where "leaf_mask = astype_uint8 (np_greater (channel1 hsv) 25)"
  define infected_mask where "infected_mask = bitwise_and (inRange hsv lower_hue upper_hue) leaf_mask"
  have res: "load_and_process_image read_file imdecode rgb2hsv image_path =
      Inr (cvtColor_BGR2RGB decoded, leaf_mask, infected_mask)"
    using load_and_process_image_decoded
      [where read_file = read_file and imdecode = imdecode and rgb2hsv = rgb2hsv, OF assms]
    by (simp add: hsv_def leaf_mask_def infected_mask_def)
  have leaf: "leaf_mask = map (map (\<lambda>p. if 25 < uint (case p of (c0, c1, c2) \<Rightarrow> c1) then 1 else 0)) hsv"
    by (simp add: leaf_mask_def astype_uint8_def np_greater_def channel1_def comp_def)
  have inr: "inRange hsv lower_hue upper_hue =
      map (map (\<lambda>(c0, c1, c2).
         case lower_hue of (l0, l1, l2) \<Rightarrow> case upper_hue of (u0, u1, u2) \<Rightarrow>
         if l0 \<le> uint c0 \<and> uint c0 \<le> u0 \<and> l1 \<le> uint c1 \<and> uint c1 \<le> u1 \<and>
            l2 \<le> uint c2 \<and> uint c2 \<le> u2
         then 255 else 0)) hsv"
    by (simp add: inRange_def)
  have sub: "mask_subset infected_mask leaf_mask"
    unfolding infected_mask_def inr unfolding leaf by (rule mask_subset_bitwise_and)
  from mask_subset_nth [OF sub] res sub show ?thesis by blast
qed

theorem infected_mask_subset_leaf_mask_witness:
  "example_read_file ''leaf.png'' = Inr [137, 80, 78, 71] \<and>
   example_imdecode [137, 80, 78, 71] = Inr (Some example_decoded) \<and>
   load_and_process_image example_read_file example_imdecode example_rgb2hsv ''leaf.png'' =
     Inr ([[(0, 255, 0), (200, 150, 50)], [(255, 255, 255), (255, 230, 230)]],
          [[1, 1], [0, 0]], [[0, 1], [0, 0]]) \<and>
   mask_subset [[0, 1], [0, 0]] [[1, 1], [0, 0]]"
proof -
  have r: "example_read_file ''leaf.png'' = Inr [137, 80, 78, 71]"
    by (simp add: example_read_file_def)
  have d: "example_imdecode [137, 80, 78, 71] = Inr (Some example_decoded)"
    by (simp add: example_imdecode_def)
  from infected_mask_subset_leaf_mask
    [where read_file = example_read_file and imdecode = example_imdecode
       and rgb2hsv = example_rgb2hsv, OF r d]
  have "mask_subset [[0, 1], [0, 0]] [[1, 1], [0, 0]]"
    unfolding example_load by simp
  with r d example_load show ?thesis by simp
qed

section \<open>The leaf mask\<close>

text \<open>
  C6. For every image that is read and decoded, the leaf mask has the shape of the
  image and is true at a pixel exactly when the saturation of that pixel, the second
  channel of its HSV value, is greater than 25.
\<close>

theorem leaf_mask_saturation_threshold:
  assumes "read_file image_path = Inr image_data"
      and "imdecode image_data = Inr (Some decoded)"
  shows "\<exists>img leaf_mask infected_mask.
     load_and_process_image read_file imdecode rgb2hsv image_path = Inr (img, leaf_mask, infected_mask) \<and>
     length leaf_mask = length img \<and>
     (\<forall>r < length img. length (leaf_mask ! r) = length (img ! r) \<and>
        (\<forall>c < length (img ! r).
           (leaf_mask ! r ! c \<noteq> 0) = (case rgb2hsv (img ! r ! c) of (h, s, v) \<Rightarrow> 25 < uint s)))"
  using load_and_process_image_decoded
      [where read_file = read_file and imdecode = imdecode and rgb2hsv = rgb2hsv, OF assms]
  by (simp add: leaf_mask_shape leaf_mask_nth)

theorem leaf_mask_saturation_threshold_witness:
  "example_read_file ''leaf.png'' = Inr [137, 80, 78, 71] \<and>
   example_imdecode [137, 80, 78, 71] = Inr (Some example_decoded) \<and>
   load_and_process_image example_read_file example_imdecode example_rgb2hsv ''leaf.png'' =
     Inr ([[(0, 255, 0), (200, 150, 50)], [(255, 255, 255), (255, 230, 230)]],
          [[1, 1], [0, 0]], [[0, 1], [0, 0]]) \<and>
   example_rgb2hsv (200, 150, 50) = (20, 191, 200) \<and>
   example_rgb2hsv (255, 230, 230) = (0, 25, 255) \<and>
   ([[1, 1], [0, 0]] ! 0 ! 1 \<noteq> (0::uint8)) = ((25::int) < uint (191::uint8)) \<and>
   ([[1, 1], [0, 0]] ! 1 ! 1 \<noteq> (0::uint8)) = ((25::int) < uint (25::uint8))"
proof -
  have r: "example_read_file ''leaf.png'' = Inr [137, 80, 78, 71]"
    by (simp add: example_read_file_def)
  have d: "example_imdecode [137, 80, 78, 71] = Inr (Some example_decoded)"
    by (simp add: example_imdecode_def)
  have h: "example_rgb2hsv (200, 150, 50) = (20, 191, 200)"
      "example_rgb2hsv (255, 230, 230) = (0, 25, 255)"
    by (simp_all add: example_rgb2hsv_def)
  from leaf_mask_saturation_threshold
    [where read_file = example_read_file and imdecode = example_imdecode
       and rgb2hsv = example_rgb2hsv, OF r d]
  have a: "\<forall>r < 2. \<forall>c < 2.
      ([[1, 1], [0, 0]] ! r ! c \<noteq> (0::uint8)) =
      (case example_rgb2hsv ([[(0, 255, 0), (200, 150, 50)], [(255, 255, 255), (255, 230, 230)]] ! r ! c)
       of (h, s, v) \<Rightarrow> 25 < uint s)"
    unfolding example_load by (auto simp: less_Suc_eq numeral_2_eq_2)
  have "([[1, 1], [0, 0]] ! 0 ! 1 \<noteq> (0::uint8)) = ((25::int) < uint (191::uint8))"
    using a [rule_format, of 0 1] by (simp add: h)
  moreover have "([[1, 1], [0, 0]] ! 1 ! 1 \<noteq> (0::uint8)) = ((25::int) < uint (25::uint8))"
    using a [rule_format, of 1 1] by (simp add: h)
  ultimately show ?thesis using r d h example_load by simp
qed

section \<open>The infected mask before the intersection\<close>

text \<open>
  C7. For every image that is read and decoded, the infected mask is the intersection
  with the leaf mask of the mask \<^verbatim>\<open>cv2.inRange(hsv, lower_hue, upper_hue)\<close>, which has
  the shape of the image and is true at a pixel exactly when its hue lies in [15, 30],
  its saturation in [50, 255] and its value in [50, 255], all bounds included.
\<close>

theorem infected_range_before_intersection:
  assumes "read_file image_path = Inr image_data"
      and "imdecode image_data = Inr (Some decoded)"
  shows "\<exists>img leaf_mask infected_mask.
     load_and_process_image read_file imdecode rgb2hsv image_path = Inr (img, leaf_mask, infected_mask) \<and>
     infected_mask =
       bitwise_and (inRange (cvtColor_RGB2HSV rgb2hsv img) lower_hue upper_hue) leaf_mask \<and>
     length (inRange (cvtColor_RGB2HSV rgb2hsv img) lower_hue upper_hue) = length img \<and>
     (\<forall>r < length img.
        length (inRange (cvtColor_RGB2HSV rgb2hsv img) lower_hue upper_hue ! r) = length (img ! r) \<and>
        (\<forall>c < length (img ! r).
           (inRange (cvtColor_RGB2HSV rgb2hsv img) lower_hue upper_hue ! r ! c \<noteq> 0) =
           (case rgb2hsv (img ! r ! c) of (h, s, v) \<Rightarrow>
              15 \<le> uint h \<and> uint h \<le> 30 \<and> 50 \<le> uint s \<and> uint s \<le> 255 \<and>
              50 \<le> uint v \<and> uint v \<le> 255)))"
  using load_and_process_image_decoded
      [where read_file = read_file and imdecode = imdecode and rgb2hsv = rgb2hsv, OF assms]
  by (simp add: inRange_shape inRange_nth)

theorem infected_range_before_intersection_witness:
  "example_read_file ''leaf.png'' = Inr [137, 80, 78, 71] \<and>
   example_imdecode [137, 80, 78, 71] = Inr (Some example_decoded) \<and>
   load_and_process_image example_read_file example_imdecode example_rgb2hsv ''leaf.png'' =
     Inr ([[(0, 255, 0), (200, 150, 50)], [(255, 255, 255), (255, 230, 230)]],
          [[1, 1], [0, 0]], [[0, 1], [0, 0]]) \<and>
   inRange (cvtColor_RGB2HSV example_rgb2hsv
      [[(0, 255, 0), (200, 150, 50)], [(255, 255, 255), (255, 230, 230)]]) lower_hue upper_hue =
     [[0, 255], [0, 0]] \<and>
   example_rgb2hsv (200, 150, 50) = (20, 191, 200) \<and>
   example_rgb2hsv (0, 255, 0) = (60, 255, 255) \<and>
   ([[0, 255], [0, 0]] ! 0 ! 1 \<noteq> (0::uint8)) =
     ((15::int) \<le> uint (20::uint8) \<and> uint (20::uint8) \<le> (30::int) \<and>
      (50::int) \<le> uint (191::uint8) \<and> uint (191::uint8) \<le> (255::int) \<and>
      (50::int) \<le> uint (200::uint8) \<and> uint (200::uint8) \<le> (255::int)) \<and>
   ([[0, 255], [0, 0]] ! 0 ! 0 \<noteq> (0::uint8)) =
     ((15::int) \<le> uint (60::uint8) \<and> uint (60::uint8) \<le> (30::int) \<and>
      (50::int) \<le> uint (255::uint8) \<and> uint (255::uint8) \<le> (255::int) \<and>
      (50::int) \<le> uint (255::uint8) \<and> uint (255::uint8) \<le> (255::int))"
proof -
  have r: "example_read_file ''leaf.png'' = Inr [137, 80, 78, 71]"
    by (simp add: example_read_file_def)
  have d: "example_imdecode [137, 80, 78, 71] = Inr (Some example_decoded)"
    by (simp add: example_imdecode_def)
  have h: "example_rgb2hsv (200, 150, 50) = (20, 191, 200)"
      "example_rgb2hsv (0, 255, 0) = (60, 255, 255)"
    by (simp_all add: example_rgb2hsv_def)
  from infected_range_before_intersection
    [where read_file = example_read_file and imdecode = example_imdecode
       and rgb2hsv = example_rgb2hsv, OF r d]
  have a: "\<forall>r < 2. \<forall>c < 2.
      ([[0, 255], [0, 0]] ! r ! c \<noteq> (0::uint8)) =
      (case example_rgb2hsv ([[(0, 255, 0), (200, 150, 50)], [(255, 255, 255), (255, 230, 230)]] ! r ! c)
       of (h, s, v) \<Rightarrow>
          15 \<le> uint h \<and> uint h \<le> 30 \<and> 50 \<le> uint s \<and> uint s \<le> 255 \<and>
          50 \<le> uint v \<and> uint v \<le> 255)"
    unfolding example_load by (auto simp: example_inRange less_Suc_eq numeral_2_eq_2)
  have "([[0, 255], [0, 0]] ! 0 ! 1 \<noteq> (0::uint8)) =
     ((15::int) \<le> uint (20::uint8) \<and> uint (20::uint8) \<le> (30::int) \<and>
      (50::int) \<le> uint (191::uint8) \<and> uint (191::uint8) \<le> (255::int) \<and>
      (50::int) \<le> uint (200::uint8) \<and> uint (200::uint8) \<le> (255::int))"
    using a [rule_format, of 0 1] by (simp add: h)
  moreover have "([[0, 255], [0, 0]] ! 0 ! 0 \<noteq> (0::uint8)) =
     ((15::int) \<le> uint (60::uint8) \<and> uint (60::uint8) \<le> (30::int) \<and>
      (50::int) \<le> uint (255::uint8) \<and> uint (255::uint8) \<le> (255::int) \<and>
      (50::int) \<le> uint (255::uint8) \<and> uint (255::uint8) \<le> (255::int))"
    using a [rule_format, of 0 0] by (simp add: h)
  ultimately show ?thesis using r d h example_load example_inRange by simp
qed

section \<open>Decoding failures\<close>

text \<open>
  C8. When the bytes that were read do not decode to an image (the decoder returns no
  image, or raises), \<^verbatim>\<open>load_and_process_image\<close> fails with one \<^verbatim>\<open>Exception\<close> whose
  message is "Error processing image: " followed by the message of the cause, and
  returns no image and no mask.
\<close>

theorem decode_failure_is_wrapped:
  assumes "read_file image_path = Inr image_data"
      and "\<forall>decoded. imdecode image_data \<noteq> Inr (Some decoded)"
  shows "\<exists>cause.
     load_and_process_image read_file imdecode rgb2hsv image_path =
       Inl (Exception (''Error processing image: '' @ cause)) \<and>
     (imdecode image_data = Inr None \<longrightarrow> cause = ''Unable to load image from: '' @ image_path) \<and>
     (\<forall>e. imdecode image_data = Inl e \<longrightarrow> cause = str e) \<and>
     (\<forall>result. load_and_process_image read_file imdecode rgb2hsv image_path \<noteq> Inr result)"
proof (cases "imdecode image_data")
  case (Inl e)
  then show ?thesis
    using assms(1) by (simp add: load_and_process_image_def try_block_def)
next
  case (Inr opt)
  with assms(2) have "opt = None" by (cases opt) auto
  with Inr show ?thesis
    using assms(1) by (simp add: load_and_process_image_def try_block_def)
qed

theorem decode_failure_is_wrapped_witness:
  "example_read_file ''notes.txt'' = Inr [104, 105] \<and>
   example_imdecode [104, 105] = Inr None \<and>
   load_and_process_image example_read_file example_imdecode example_rgb2hsv ''notes.txt'' =
     Inl (Exception ''Error processing image: Unable to load image from: notes.txt'')"
proof -
  have r: "example_read_file ''notes.txt'' = Inr [104, 105]"
    by (simp add: example_read_file_def)
  have d: "example_imdecode [104, 105] = Inr None"
    by (simp add: example_imdecode_def)
  then have n: "\<forall>decoded. example_imdecode [104, 105] \<noteq> Inr (Some decoded)" by simp
  from decode_failure_is_wrapped
    [where read_file = example_read_file and imdecode = example_imdecode
       and rgb2hsv = example_rgb2hsv, OF r n] d
  have "load_and_process_image example_read_file example_imdecode example_rgb2hsv ''notes.txt'' =
     Inl (Exception ''Error processing image: Unable to load image from: notes.txt'')"
    by auto
  with r d show ?thesis by simp
qed

section \<open>Bitwise and boolean intersection\<close>

text \<open>
  C9. On a mask with the values 0 and 255 and a mask with the values 0 and 1, the
  bitwise AND is true at a pixel exactly when both masks are: its truth values are the
  boolean AND of the truth values of the two masks. The two masks that
  \<^verbatim>\<open>load_and_process_image\<close> intersects have these values, so the intersection it
  computes is the boolean intersection.
\<close>

theorem bitwise_and_is_boolean_and:
  "(values_in a [0, 255] \<and> values_in b [0, 1] \<longrightarrow>
      truth (bitwise_and a b) = boolean_and (truth a) (truth b)) \<and>
   values_in (inRange hsv lower_hue upper_hue) [0, 255] \<and>
   values_in (astype_uint8 (np_greater (channel1 hsv) 25)) [0, 1] \<and>
   truth (bitwise_and (inRange hsv lower_hue upper_hue) (astype_uint8 (np_greater (channel1 hsv) 25))) =
     boolean_and (truth (inRange hsv lower_hue upper_hue))
       (truth (astype_uint8 (np_greater (channel1 hsv) 25)))"
  by (simp add: truth_bitwise_and inRange_values astype_uint8_values)

theorem bitwise_and_is_boolean_and_witness:
  "values_in [[0, 255], [255, 0]] [0, 255] \<and> values_in [[1, 1], [0, 0]] [0, 1] \<and>
   bitwise_and [[0, 255], [255, 0]] [[1, 1], [0, 0]] = [[0, 1], [0, 0]] \<and>
   truth [[0, 1], [0, 0]] = boolean_and (truth [[0, 255], [255, 0]]) (truth [[1, 1], [0, 0]]) \<and>
   boolean_and (truth [[0, 255], [255, 0]]) (truth [[1, 1], [0, 0]]) = [[False, True], [False, False]]"
proof -
  have a: "values_in [[0, 255], [255, 0]] [0, 255]" by (simp add: values_in_def)
  have b: "values_in [[1, 1], [0, 0]] [0, 1]" by (simp add: values_in_def)
  have e: "bitwise_and [[0, 255], [255, 0]] [[1, 1], [0, 0]] = [[0, 1], [0, 0]]"
    by (simp add: bitwise_and_def)
  have t: "boolean_and (truth [[0, 255], [255, 0]]) (truth [[1, 1], [0, 0]]) = [[False, True], [False, False]]"
    by (simp add: boolean_and_def truth_def)
  from bitwise_and_is_boolean_and [of "[[0, 255], [255, 0]]" "[[1, 1], [0, 0]]"] a b
  have "truth (bitwise_and [[0, 255], [255, 0]] [[1, 1], [0, 0]]) =
      boolean_and (truth [[0, 255], [255, 0]]) (truth [[1, 1], [0, 0]])"
    by blast
  with a b e t show ?thesis by simp
qed

end
